theory Spec2Isabelle
  imports Complex_Main "HOL-Library.Product_Lexorder"
begin

section \<open>Python string primitives used by the worker\<close>

text \<open>
  Texts are Python \<open>str\<close> values, modelled as \<open>string\<close>: a list of characters, each
  standing for one code point below 256. Indices and sizes are Python's unbounded
  integers, so they are \<open>int\<close> and may be negative.
\<close>

text \<open>
  \<open>str.isspace\<close> on one character: the code points Python treats as whitespace
  (tab, line feed, vertical tab, form feed, carriage return, the four separators
  0x1C..0x1F, space, NEL and the no-break space).
\<close>

definition is_space :: "char \<Rightarrow> bool" where
  "is_space c = ((of_char c :: nat) \<in> set [9, 10, 11, 12, 13, 28, 29, 30, 31, 32, 133, 160])"

text \<open>\<open>str.strip()\<close>: whitespace removed at both ends.\<close>

definition strip :: "string \<Rightarrow> string" where
  "strip s = rev (dropWhile is_space (rev (dropWhile is_space s)))"

text \<open>
  How Python clamps one bound of a slice (and of the range \<open>rfind\<close> searches) for a
  sequence of length \<open>n\<close>: a negative bound counts from the right end, and the result
  is kept within \<open>0..n\<close>.
\<close>

definition adjust_index :: "int \<Rightarrow> int \<Rightarrow> int" where
  "adjust_index n i = (if i < 0 then max (i + n) 0 else min i n)"

text \<open>\<open>xs[a:b]\<close>, for a string as for a list.\<close>

definition slice :: "'a list \<Rightarrow> int \<Rightarrow> int \<Rightarrow> 'a list" where
  "slice s a b =
     (let n = int (length s); lo = adjust_index n a; hi = adjust_index n b
      in take (nat (hi - lo)) (drop (nat lo) s))"

text \<open>Whether \<open>sub\<close> stands in \<open>s\<close> at the (non-negative) position \<open>i\<close>.\<close>

definition occurs_at :: "string \<Rightarrow> string \<Rightarrow> int \<Rightarrow> bool" where
  "occurs_at s sub i = (0 \<le> i \<and> take (length sub) (drop (nat i) s) = sub)"

text \<open>
  The scan of \<open>str.rfind\<close>: of the \<open>k\<close> candidate positions \<open>lo, lo + 1, ..., lo + k - 1\<close>
  the highest one where \<open>sub\<close> stands, or \<open>-1\<close>.
\<close>

fun rfind_scan :: "string \<Rightarrow> string \<Rightarrow> int \<Rightarrow> nat \<Rightarrow> int" where
  "rfind_scan s sub lo 0 = -1"
| "rfind_scan s sub lo (Suc k) =
     (if occurs_at s sub (lo + int k) then lo + int k else rfind_scan s sub lo k)"

text \<open>
  \<open>text.rfind(sub, a, b)\<close>: the highest index \<open>i\<close> with \<open>text[i:i+len(sub)] == sub\<close> and
  the occurrence wholly inside \<open>text[a:b]\<close>, or \<open>-1\<close>. The upper bound is clamped as a
  slice's; the lower bound is only shifted when negative (a lower bound past the end
  leaves no candidate).
\<close>

definition rfind :: "string \<Rightarrow> string \<Rightarrow> int \<Rightarrow> int \<Rightarrow> int" where
  "rfind s sub a b =
     (let n = int (length s);
          hi = adjust_index n b;
          lo = (if a < 0 then max (a + n) 0 else a)
      in rfind_scan s sub lo (nat (hi - int (length sub) - lo + 1)))"

section \<open>Chunker: \<open>chunk_text\<close> of \<open>utils/docling_parser.py\<close>\<close>

text \<open>
  \<open>int(chunk_size * 0.2)\<close>: the floating-point product, truncated towards zero. For a
  \<open>chunk_size\<close> of magnitude below \<open>2^52\<close> the product is close enough to the exact fifth
  that the result is \<open>chunk_size / 5\<close> rounded towards zero, which is what the model takes.
\<close>

definition boundary_window :: "int \<Rightarrow> int" where
  "boundary_window chunk_size =
     (if 0 \<le> chunk_size then chunk_size div 5 else - ((- chunk_size) div 5))"

text \<open>The separators of the boundary search, in the order the loop tries them.\<close>

definition separators :: "string list" where
  "separators = [''. '', [CHR ''.'', CHR 0x0A], ''! '', ''? '', [CHR 0x0A, CHR 0x0A]]"

text \<open>
  The \<open>for sep in [...]\<close> loop: the first separator \<open>rfind\<close> finds between \<open>search_start\<close>
  and the nominal end \<open>e\<close> moves the cut to just after its last occurrence there
  (\<open>break\<close>); with none found the cut stays at \<open>e\<close>.
\<close>

fun find_boundary :: "string \<Rightarrow> string list \<Rightarrow> int \<Rightarrow> int \<Rightarrow> int" where
  "find_boundary s [] search_start e = e"
| "find_boundary s (sep # seps) search_start e =
     (let idx = rfind s sep search_start e
      in if idx \<noteq> -1 then idx + int (length sep)
         else find_boundary s seps search_start e)"

text \<open>The value of \<open>end\<close> when the chunk starting at \<open>start\<close> is cut.\<close>

definition chunk_end :: "string \<Rightarrow> int \<Rightarrow> int \<Rightarrow> int" where
  "chunk_end s chunk_size start =
     (let e = start + chunk_size
      in if e < int (length s)
         then find_boundary s separators (e - boundary_window chunk_size) e
         else e)"

text \<open>
  The \<open>while start < len(text)\<close> loop. It has no bound of its own, so the model counts
  iterations down from \<open>fuel\<close>: \<open>None\<close> says that the loop was still running after
  \<open>fuel\<close> iterations, \<open>Some chunks\<close> that it left with the list \<open>chunks\<close>.
\<close>

fun chunk_loop :: "nat \<Rightarrow> string \<Rightarrow> int \<Rightarrow> int \<Rightarrow> int \<Rightarrow> string list \<Rightarrow> string list option" where
  "chunk_loop 0 s chunk_size chunk_overlap start chunks =
     (if start < int (length s) then None else Some chunks)"
| "chunk_loop (Suc fuel) s chunk_size chunk_overlap start chunks =
     (if start < int (length s)
      then (let e = chunk_end s chunk_size start
            in chunk_loop fuel s chunk_size chunk_overlap (e - chunk_overlap)
                 (chunks @ [strip (slice s start e)]))
      else Some chunks)"

definition chunk_text :: "nat \<Rightarrow> string \<Rightarrow> int \<Rightarrow> int \<Rightarrow> string list option" where
  "chunk_text fuel s chunk_size chunk_overlap =
     (if int (length s) \<le> chunk_size then Some [s]
      else chunk_loop fuel s chunk_size chunk_overlap 0 [])"

subsection \<open>The boundary rule in words\<close>

text \<open>
  Two descriptions of where a window is cut, to compare \<open>chunk_end\<close> with. Both look at
  the positions \<open>i\<close> between \<open>search_start\<close> and the nominal end at which a two-character
  delimiter stands wholly before the nominal end, the closest to the nominal end first.
\<close>

text \<open>The last position between \<open>lo\<close> and \<open>hi\<close> where \<open>sub\<close> stands wholly before \<open>hi\<close>.\<close>

definition last_occurrence :: "string \<Rightarrow> string \<Rightarrow> int \<Rightarrow> int \<Rightarrow> int option" where
  "last_occurrence s sub lo hi =
     (case filter (occurs_at s sub) (rev [lo..hi - int (length sub)]) of
        [] \<Rightarrow> None
      | i # _ \<Rightarrow> Some i)"

text \<open>
  Priority rule: the first separator of the list that occurs in the search window decides,
  and the cut goes just after its last occurrence there.
\<close>

definition priority_cut :: "string \<Rightarrow> int \<Rightarrow> int \<Rightarrow> int" where
  "priority_cut s chunk_size start =
     (let e = start + chunk_size; lo = e - boundary_window chunk_size
      in if e < int (length s)
         then (case List.find (\<lambda>sep. last_occurrence s sep lo e \<noteq> None) separators of
                 None \<Rightarrow> e
               | Some sep \<Rightarrow> the (last_occurrence s sep lo e) + int (length sep))
         else e)"

text \<open>
  Closest rule, as the specification words it: a delimiter is a period, an exclamation
  mark or a question mark followed by whitespace, or a blank line; the cut goes just
  after the delimiter closest to the nominal end, whichever kind it is.
\<close>

definition is_delimiter_at :: "string \<Rightarrow> int \<Rightarrow> bool" where
  "is_delimiter_at s i =
     (0 \<le> i \<and> i + 1 < int (length s) \<and>
      ((s ! nat i \<in> set ''.!?'' \<and> is_space (s ! nat (i + 1))) \<or>
       (s ! nat i = CHR 0x0A \<and> s ! nat (i + 1) = CHR 0x0A)))"

definition closest_delimiter_cut :: "string \<Rightarrow> int \<Rightarrow> int \<Rightarrow> int" where
  "closest_delimiter_cut s chunk_size start =
     (let e = start + chunk_size
      in case filter (is_delimiter_at s) (rev [e - boundary_window chunk_size..e - 2]) of
           [] \<Rightarrow> e
         | i # _ \<Rightarrow> i + 2)"

section \<open>Exceptions\<close>

text \<open>
  A raised exception is a value. \<open>Exn msg\<close> is an exception of a collaborator (the
  parser, the embedding provider, the database) whose \<open>str()\<close> is \<open>msg\<close>. \<open>RetryError e
  attempt\<close> is what the retry decorator raises around the last attempt's exception \<open>e\<close>;
  \<open>attempt\<close> is the \<open>repr\<close> of that attempt as the library holds it, a text of the form
  \<open><Future at 0x... state=finished raised ...>\<close> that names an address of the running
  process and the class of \<open>e\<close>, not the message of \<open>e\<close>.
\<close>

datatype exn = Exn string | ValueError string | IndexError string | RetryError exn string

text \<open>\<open>str(e)\<close>. The library prints a \<open>RetryError\<close> as its class name and, in brackets, the attempt.\<close>

fun exc_str :: "exn \<Rightarrow> string" where
  "exc_str (Exn msg) = msg"
| "exc_str (ValueError msg) = msg"
| "exc_str (IndexError msg) = msg"
| "exc_str (RetryError e attempt) = ''RetryError['' @ attempt @ '']''"

section \<open>Persisted rows and the world the worker runs in\<close>

type_synonym embedding = "real list"

text \<open>A row of \<open>knowledge_base\<close>, with the columns the \<open>INSERT\<close> of \<open>insert_document\<close> names and the id the table assigns.\<close>

record document =
  doc_id :: nat
  source_url :: string
  source_type :: string
  filename :: string
  content_markdown :: string
  embedding :: embedding
  metadata :: "string \<rightharpoonup> string"
  char_count :: nat

text \<open>What \<open>ingest_document\<close> returns, and stores as the job's \<open>result_data\<close>.\<close>

record ingest_result =
  document_id :: nat
  result_filename :: string
  result_source_type :: string
  result_char_count :: nat
  result_status :: string

text \<open>
  A row of \<open>job_status\<close>. \<open>input_data\<close> is the JSON object \<open>{"source_url": url}\<close>, kept as
  its one field; a column that is \<open>NULL\<close> is \<open>None\<close>.
\<close>

record job =
  celery_task_id :: string
  task_name :: string
  status :: string
  progress :: "int option"
  input_data :: string
  result_data :: "ingest_result option"
  error_message :: "string option"
  started_at :: "nat option"
  completed_at :: "nat option"

text \<open>
  Everything a task can change: the state of the embedding provider (it decides what the
  next call answers), the waits the retry decorator slept, the two tables, and the clock
  that \<open>NOW()\<close> reads.
\<close>

record 'p world =
  provider_state :: 'p
  slept :: "nat list"
  knowledge_base :: "document list"
  job_status :: "job list"
  now :: nat

section \<open>Embedding generation: \<open>utils/embeddings.py\<close>\<close>

text \<open>
  \<open>client.embeddings.create(input=..., model=...)\<close>: given one text or a list of texts and
  the model's name, the provider raises or answers with \<open>response.data\<close>, here the list of
  its embeddings.
\<close>

datatype embed_input = Text string | Texts "string list"

type_synonym 'p embeddings_create =
  "'p \<Rightarrow> embed_input \<Rightarrow> string \<Rightarrow> (exn + embedding list) \<times> 'p"

text \<open>
  \<open>wait_exponential(multiplier, min, max)\<close> of the retry library, after the attempt
  numbered \<open>attempt\<close> (from 1): \<open>multiplier * 2^(attempt - 1)\<close>, kept between \<open>min\<close> and \<open>max\<close>.
\<close>

definition wait_exponential :: "nat \<Rightarrow> nat \<Rightarrow> nat \<Rightarrow> nat \<Rightarrow> nat" where
  "wait_exponential multiplier wait_min wait_max attempt =
     max wait_min (min (multiplier * 2 ^ (attempt - 1)) wait_max)"

text \<open>
  The \<open>@retry\<close> decorator around a call \<open>f\<close>: the attempt numbered \<open>attempt\<close> is made; when it
  raises and \<open>remaining\<close> more attempts are allowed, the wait is slept and the next attempt
  made; when none is allowed, \<open>RetryError\<close> is raised around the exception. \<open>attempt_repr\<close>
  gives the \<open>repr\<close> the running process has for the attempt that raised an exception.
\<close>

fun retrying ::
  "(nat \<Rightarrow> nat) \<Rightarrow> (exn \<Rightarrow> string) \<Rightarrow> nat \<Rightarrow> nat \<Rightarrow> ('p world \<Rightarrow> (exn + 'a) \<times> 'p world)
     \<Rightarrow> 'p world \<Rightarrow> (exn + 'a) \<times> 'p world" where
  "retrying wait attempt_repr attempt 0 f w =
     (case f w of
        (Inr v, w') \<Rightarrow> (Inr v, w')
      | (Inl e, w') \<Rightarrow> (Inl (RetryError e (attempt_repr e)), w'))"
| "retrying wait attempt_repr attempt (Suc remaining) f w =
     (case f w of
        (Inr v, w') \<Rightarrow> (Inr v, w')
      | (Inl e, w') \<Rightarrow>
          retrying wait attempt_repr (Suc attempt) remaining f
            (w'\<lparr>slept := slept w' @ [wait attempt]\<rparr>))"

text \<open>\<open>@retry(stop=stop_after_attempt(3), wait=wait_exponential(multiplier=1, min=2, max=10))\<close>.\<close>

definition retry_3_attempts ::
  "(exn \<Rightarrow> string) \<Rightarrow> ('p world \<Rightarrow> (exn + 'a) \<times> 'p world) \<Rightarrow> 'p world
     \<Rightarrow> (exn + 'a) \<times> 'p world" where
  "retry_3_attempts attempt_repr f w =
     retrying (wait_exponential 1 2 10) attempt_repr 1 2 f w"

text \<open>One call of the provider, threading its state through the world.\<close>

definition call_provider ::
  "'p embeddings_create \<Rightarrow> embed_input \<Rightarrow> string \<Rightarrow> 'p world \<Rightarrow> (exn + embedding list) \<times> 'p world" where
  "call_provider create inp model w =
     (case create (provider_state w) inp model of
        (r, p') \<Rightarrow> (r, w\<lparr>provider_state := p'\<rparr>))"

text \<open>The body of \<open>generate_embedding\<close>: truncate, call, take \<open>response.data[0].embedding\<close>.\<close>

definition generate_embedding_body ::
  "'p embeddings_create \<Rightarrow> string \<Rightarrow> string \<Rightarrow> 'p world \<Rightarrow> (exn + embedding) \<times> 'p world" where
  "generate_embedding_body create txt model w =
     (let max_chars = 30000;
          txt' = (if length txt > max_chars then take max_chars txt else txt)
      in case call_provider create (Text txt') model w of
           (Inl e, w') \<Rightarrow> (Inl e, w')
         | (Inr [], w') \<Rightarrow> (Inl (IndexError ''list index out of range''), w')
         | (Inr (d # _), w') \<Rightarrow> (Inr d, w'))"

definition generate_embedding ::
  "'p embeddings_create \<Rightarrow> (exn \<Rightarrow> string) \<Rightarrow> string \<Rightarrow> string \<Rightarrow> 'p world
     \<Rightarrow> (exn + embedding) \<times> 'p world" where
  "generate_embedding create attempt_repr txt model w =
     retry_3_attempts attempt_repr (generate_embedding_body create txt model) w"

text \<open>
  \<open>range(0, stop, step)\<close> for \<open>stop \<ge> 0\<close>: the numbers \<open>0, step, 2 * step, ...\<close> below \<open>stop\<close>;
  none when \<open>step\<close> is negative; \<open>ValueError\<close> when \<open>step\<close> is zero.
\<close>

definition range_from_0 :: "int \<Rightarrow> int \<Rightarrow> exn + int list" where
  "range_from_0 stop step =
     (if step = 0 then Inl (ValueError ''range() arg 3 must not be zero'')
      else if step < 0 then Inr []
      else Inr (map (\<lambda>k. int k * step) [0..<nat ((stop + step - 1) div step)]))"

text \<open>
  The body of the \<open>for i in range(...)\<close> loop of \<open>generate_embeddings_batch\<close>, over the
  remaining values of \<open>i\<close>: the group \<open>texts[i:i + batch_size]\<close>, each text truncated, goes to
  the provider in one call and its embeddings are appended. The function has no retry
  decorator: an exception of the provider leaves the loop and the function at once.
\<close>

fun embed_groups ::
  "'p embeddings_create \<Rightarrow> string list \<Rightarrow> string \<Rightarrow> int \<Rightarrow> int list \<Rightarrow> embedding list \<Rightarrow> 'p world
     \<Rightarrow> (exn + embedding list) \<times> 'p world" where
  "embed_groups create texts model batch_size [] embeddings w = (Inr embeddings, w)"
| "embed_groups create texts model batch_size (i # rest) embeddings w =
     (let batch = slice texts i (i + batch_size);
          batch' = map (take 30000) batch
      in case call_provider create (Texts batch') model w of
           (Inl e, w') \<Rightarrow> (Inl e, w')
         | (Inr batch_embeddings, w') \<Rightarrow>
             embed_groups create texts model batch_size rest (embeddings @ batch_embeddings) w')"

definition generate_embeddings_batch ::
  "'p embeddings_create \<Rightarrow> string list \<Rightarrow> string \<Rightarrow> int \<Rightarrow> 'p world
     \<Rightarrow> (exn + embedding list) \<times> 'p world" where
  "generate_embeddings_batch create texts model batch_size w =
     (case range_from_0 (int (length texts)) batch_size of
        Inl e \<Rightarrow> (Inl e, w)
      | Inr starts \<Rightarrow> embed_groups create texts model batch_size starts [] w)"

text \<open>A provider for the examples: its state counts the calls; the first call raises, every later one answers each text with the embedding \<open>[1/2]\<close>.\<close>

definition flaky_provider :: "nat embeddings_create" where
  "flaky_provider calls inp model =
     (if calls = 0 then (Inl (Exn ''503 Service Unavailable''), Suc calls)
      else (Inr (case inp of Text t \<Rightarrow> [[1/2]] | Texts ts \<Rightarrow> map (\<lambda>t. [1/2]) ts), Suc calls))"

text \<open>A provider for the examples that always answers, each text with its length as a one-number embedding.\<close>

definition length_provider :: "nat embeddings_create" where
  "length_provider calls inp model =
     (Inr (case inp of Text t \<Rightarrow> [[real (length t)]] | Texts ts \<Rightarrow> map (\<lambda>t. [real (length t)]) ts),
      Suc calls)"

section \<open>Database operations: \<open>utils/database.py\<close>\<close>

text \<open>
  What the worker's collaborators do in one run: the parser on a source; the embedding
  provider; the \<open>repr\<close> the process has for a failed attempt; and which statements the
  database fails: the \<open>INSERT\<close> into \<open>knowledge_base\<close> for a row, the statement that opens
  the job of a task id, and the \<open>UPDATE\<close> of \<open>job_status\<close> for a task id and the status it
  writes (\<open>Some e\<close>: the statement or its commit raises \<open>e\<close>).
\<close>

record parsed =
  markdown :: string
  parsed_filename :: string
  parsed_source_type :: string
  parsed_metadata :: "string \<rightharpoonup> string"

record 'p env =
  env_parse_document :: "string \<Rightarrow> exn + parsed"
  env_embeddings_create :: "'p embeddings_create"
  env_attempt_repr :: "exn \<Rightarrow> string"
  env_insert_error :: "document \<Rightarrow> exn option"
  env_track_error :: "string \<Rightarrow> exn option"
  env_update_error :: "string \<Rightarrow> string \<Rightarrow> exn option"

text \<open>
  \<open>insert_document\<close>: one \<open>INSERT ... RETURNING id\<close> inside \<open>get_db_session\<close>, which commits
  when the block ends and rolls back when it raises: either the row is in the table and
  its id is returned, or the exception is raised and the table is as before. The id the
  table assigns is taken to be the number of rows before the insert (\<open>str()\<close> of it is not
  modelled); \<open>metadata or {}\<close> turns \<open>None\<close> into the empty dict.
\<close>

definition insert_document ::
  "(document \<Rightarrow> exn option) \<Rightarrow> string \<Rightarrow> string \<Rightarrow> string \<Rightarrow> string \<Rightarrow> embedding
     \<Rightarrow> (string \<rightharpoonup> string) option \<Rightarrow> 'p world \<Rightarrow> (exn + nat) \<times> 'p world" where
  "insert_document insert_error src_url src_type fname content emb meta w =
     (let row = \<lparr>doc_id = length (knowledge_base w),
                 source_url = src_url,
                 source_type = src_type,
                 filename = fname,
                 content_markdown = content,
                 embedding = emb,
                 metadata = (case meta of None \<Rightarrow> Map.empty | Some m \<Rightarrow> m),
                 char_count = length content\<rparr>
      in case insert_error row of
           Some e \<Rightarrow> (Inl e, w)
         | None \<Rightarrow> (Inr (doc_id row), w\<lparr>knowledge_base := knowledge_base w @ [row]\<rparr>))"








text \<open>
  One entry of \<open>update_fields\<close> together with its parameter: a column of \<open>job_status\<close> and
  the value the \<open>UPDATE\<close> sets it to.
\<close>

datatype set_clause =
    Set_status string
  | Set_progress int
  | Set_result_data ingest_result
  | Set_error_message string
  | Set_started_at_now
  | Set_completed_at_now

fun apply_set :: "nat \<Rightarrow> set_clause \<Rightarrow> job \<Rightarrow> job" where
  "apply_set t (Set_status v) row = row\<lparr>status := v\<rparr>"
| "apply_set t (Set_progress v) row = row\<lparr>progress := Some v\<rparr>"
| "apply_set t (Set_result_data v) row = row\<lparr>result_data := Some v\<rparr>"
| "apply_set t (Set_error_message v) row = row\<lparr>error_message := Some v\<rparr>"
| "apply_set t Set_started_at_now row = row\<lparr>started_at := Some t\<rparr>"
| "apply_set t Set_completed_at_now row = row\<lparr>completed_at := Some t\<rparr>"

text \<open>The list \<open>update_fields\<close> as \<open>update_job_status\<close> builds it, append by append.\<close>

definition update_fields ::
  "string \<Rightarrow> int option \<Rightarrow> ingest_result option \<Rightarrow> string option \<Rightarrow> set_clause list" where
  "update_fields st pr rd em =
     [Set_status st]
     @ (case pr of None \<Rightarrow> [] | Some v \<Rightarrow> [Set_progress v])
     @ (case rd of None \<Rightarrow> [] | Some v \<Rightarrow> [Set_result_data v])
     @ (case em of None \<Rightarrow> [] | Some v \<Rightarrow> [Set_error_message v])
     @ (if st = ''running'' then [Set_started_at_now]
        else if st \<in> set [''success'', ''failed''] then [Set_completed_at_now]
        else [])"

text \<open>\<open>UPDATE job_status SET ... WHERE celery_task_id = :celery_task_id\<close>.\<close>

definition sql_update_job_status :: "set_clause list \<Rightarrow> string \<Rightarrow> 'p world \<Rightarrow> 'p world" where
  "sql_update_job_status clauses task_id w =
     w\<lparr>job_status :=
         map (\<lambda>row. if celery_task_id row = task_id
                     then fold (apply_set (now w)) clauses row
                     else row)
           (job_status w)\<rparr>"

definition update_job_status ::
  "string \<Rightarrow> string \<Rightarrow> int option \<Rightarrow> ingest_result option \<Rightarrow> string option \<Rightarrow> 'p world \<Rightarrow> 'p world" where
  "update_job_status task_id st pr rd em w =
     sql_update_job_status (update_fields st pr rd em) task_id w"

text \<open>
  A call of \<open>update_job_status\<close> as its caller sees it: when the database fails the
  \<open>UPDATE\<close>, \<open>get_db_session\<close> rolls back and the exception is raised with the table as it
  was; otherwise the update is made.
\<close>

definition call_update_job_status ::
  "(string \<Rightarrow> string \<Rightarrow> exn option) \<Rightarrow> string \<Rightarrow> string \<Rightarrow> int option \<Rightarrow> ingest_result option
     \<Rightarrow> string option \<Rightarrow> 'p world \<Rightarrow> (exn + unit) \<times> 'p world" where
  "call_update_job_status update_error task_id st pr rd em w =
     (case update_error task_id st of
        Some e \<Rightarrow> (Inl e, w)
      | None \<Rightarrow> (Inr (), update_job_status task_id st pr rd em w))"

section \<open>Tasks: \<open>tasks.py\<close>\<close>

text \<open>
  The statement that opens \<open>ingest_document\<close>: \<open>INSERT INTO job_status ... ON CONFLICT
  (celery_task_id) DO UPDATE SET status = 'running', started_at = NOW()\<close>. A new row has
  the four columns the statement names; its other columns take the table's defaults,
  taken as \<open>NULL\<close>.
\<close>

definition track_job :: "string \<Rightarrow> string \<Rightarrow> 'p world \<Rightarrow> 'p world" where
  "track_job task_id src_url w =
     (case List.find (\<lambda>row. celery_task_id row = task_id) (job_status w) of
        None \<Rightarrow>
          w\<lparr>job_status := job_status w @
              [\<lparr>celery_task_id = task_id, task_name = ''ingest_document'', status = ''running'',
                progress = None, input_data = src_url, result_data = None,
                error_message = None, started_at = None, completed_at = None\<rparr>]\<rparr>
      | Some _ \<Rightarrow>
          w\<lparr>job_status :=
              map (\<lambda>row. if celery_task_id row = task_id
                          then row\<lparr>status := ''running'', started_at := Some (now w)\<rparr>
                          else row)
                (job_status w)\<rparr>)"

text \<open>The opening statement as the task sees it: made, or raised with the table as it was.\<close>

definition call_track_job ::
  "(string \<Rightarrow> exn option) \<Rightarrow> string \<Rightarrow> string \<Rightarrow> 'p world \<Rightarrow> (exn + unit) \<times> 'p world" where
  "call_track_job track_error task_id src_url w =
     (case track_error task_id of
        Some e \<Rightarrow> (Inl e, w)
      | None \<Rightarrow> (Inr (), track_job task_id src_url w))"

text \<open>
  The \<open>try\<close> block of \<open>ingest_document\<close>: parse, embed the first 8000 characters, merge
  the metadata (the caller's keys win), store, record success, return. The first step
  that raises ends the block with its exception; recording success is the last of these
  steps and comes after the insert has been committed.
\<close>

definition ingest_try ::
  "'p env \<Rightarrow> string \<Rightarrow> string \<Rightarrow> (string \<rightharpoonup> string) option \<Rightarrow> 'p world
     \<Rightarrow> (exn + ingest_result) \<times> 'p world" where
  "ingest_try env task_id src_url meta w =
     (case env_parse_document env src_url of
        Inl e \<Rightarrow> (Inl e, w)
      | Inr doc \<Rightarrow>
          (let embed_text = (if length (markdown doc) > 8000 then take 8000 (markdown doc)
                             else markdown doc)
           in case generate_embedding (env_embeddings_create env) (env_attempt_repr env)
                     embed_text ''text-embedding-3-small'' w of
                (Inl e, w1) \<Rightarrow> (Inl e, w1)
              | (Inr emb, w1) \<Rightarrow>
                  (let final_metadata =
                         parsed_metadata doc ++ (case meta of None \<Rightarrow> Map.empty | Some m \<Rightarrow> m)
                   in case insert_document (env_insert_error env) src_url
                             (parsed_source_type doc) (parsed_filename doc) (markdown doc) emb
                             (Some final_metadata) w1 of
                        (Inl e, w2) \<Rightarrow> (Inl e, w2)
                      | (Inr new_id, w2) \<Rightarrow>
                          (let result = \<lparr>document_id = new_id,
                                         result_filename = parsed_filename doc,
                                         result_source_type = parsed_source_type doc,
                                         result_char_count = length (markdown doc),
                                         result_status = ''success''\<rparr>
                           in case call_update_job_status (env_update_error env) task_id
                                     ''success'' (Some 100) (Some result) None w2 of
                                (Inl e, w3) \<Rightarrow> (Inl e, w3)
                              | (Inr _, w3) \<Rightarrow> (Inr result, w3)))))"

text \<open>
  One run of \<open>ingest_document\<close> under the task id \<open>task_id\<close>. The job is tracked, outside
  the \<open>try\<close>: an exception there leaves the task at once. Then the \<open>try\<close> block runs; the
  handler of an exception records it in the job and raises it again, and when the
  handler's own update raises, that exception leaves the task instead.
\<close>

definition ingest_document ::
  "'p env \<Rightarrow> string \<Rightarrow> string \<Rightarrow> (string \<rightharpoonup> string) option \<Rightarrow> 'p world
     \<Rightarrow> (exn + ingest_result) \<times> 'p world" where
  "ingest_document env task_id src_url meta w =
     (case call_track_job (env_track_error env) task_id src_url w of
        (Inl e, w0) \<Rightarrow> (Inl e, w0)
      | (Inr _, w0) \<Rightarrow>
          (case ingest_try env task_id src_url meta w0 of
             (Inr result, w') \<Rightarrow> (Inr result, w')
           | (Inl e, w') \<Rightarrow>
               (case call_update_job_status (env_update_error env) task_id ''failed'' None None
                       (Some (exc_str e)) w' of
                  (Inl e', w'') \<Rightarrow> (Inl e', w'')
                | (Inr _, w'') \<Rightarrow> (Inl e, w''))))"

text \<open>The job row of a task id.\<close>

definition job_of :: "string \<Rightarrow> 'p world \<Rightarrow> job option" where
  "job_of task_id w = List.find (\<lambda>row. celery_task_id row = task_id) (job_status w)"







section \<open>Example worlds\<close>

text \<open>Nothing stored, no call made, the clock at 7.\<close>

definition fresh_world :: "nat world" where
  "fresh_world =
     \<lparr>provider_state = 0, slept = [], knowledge_base = [], job_status = [], now = 7\<rparr>"




text \<open>A provider for the examples that raises at every call.\<close>

definition failing_provider :: "nat embeddings_create" where
  "failing_provider calls inp model = (Inl (Exn ''503 Service Unavailable''), Suc calls)"

text \<open>
  Collaborators for the examples: the parser fails on the source \<open>bad\<close> and answers every
  other source with a seven-character document; no statement of the database fails.
\<close>

definition example_env :: "nat embeddings_create \<Rightarrow> nat env" where
  "example_env create =
     \<lparr>env_parse_document =
        (\<lambda>url. if url = ''bad'' then Inl (Exn ''404 Not Found'')
               else Inr \<lparr>markdown = ''# Title'', parsed_filename = url,
                         parsed_source_type = ''pdf'', parsed_metadata = Map.empty\<rparr>),
      env_embeddings_create = create,
      env_attempt_repr = (\<lambda>e. ''<Future at 0x7f3a2c1d state=finished raised Exception>''),
      env_insert_error = (\<lambda>row. None),
      env_track_error = (\<lambda>task_id. None),
      env_update_error = (\<lambda>task_id st. None)\<rparr>"

text \<open>
  Three variations for the examples: the update that records success fails; the database
  fails the insert and every update of the job; only the insert fails.
\<close>

definition success_write_fails_env :: "nat env" where
  "success_write_fails_env =
     (example_env length_provider)
       \<lparr>env_update_error :=
          (\<lambda>task_id st. if st = ''success'' then Some (Exn ''connection lost'') else None)\<rparr>"

definition database_down_env :: "nat env" where
  "database_down_env =
     (example_env length_provider)
       \<lparr>env_insert_error := (\<lambda>row. Some (Exn ''connection lost'')),
        env_update_error := (\<lambda>task_id st. Some (Exn ''connection lost''))\<rparr>"

definition insert_fails_env :: "nat env" where
  "insert_fails_env =
     (example_env length_provider)\<lparr>env_insert_error := (\<lambda>row. Some (Exn ''disk full''))\<rparr>"


section \<open>Properties of the chunker\<close>

lemma strip_length: "length (strip s) \<le> length s"
  unfolding strip_def
  by (metis length_dropWhile_le length_rev order_trans)

lemma adjust_index_range: "0 \<le> adjust_index (int n) i \<and> adjust_index (int n) i \<le> int n"
  by (simp add: adjust_index_def)

lemma adjust_index_step:
  "0 \<le> c \<Longrightarrow> adjust_index (int n) (a + c) - adjust_index (int n) a \<le> c"
  by (auto simp: adjust_index_def min_def max_def)

lemma slice_length:
  "int (length (slice s a b)) =
     max 0 (adjust_index (int (length s)) b - adjust_index (int (length s)) a)"
  using adjust_index_range[of "length s" a] adjust_index_range[of "length s" b]
  by (auto simp: slice_def Let_def min_def max_def)

lemma rfind_scan_found:
  "rfind_scan s sub lo k \<noteq> -1 \<Longrightarrow>
     lo \<le> rfind_scan s sub lo k \<and> rfind_scan s sub lo k < lo + int k \<and>
     occurs_at s sub (rfind_scan s sub lo k)"
  by (induction k) (auto split: if_splits)

lemma rfind_found:
  assumes "rfind s sub a b \<noteq> -1"
  shows "0 \<le> rfind s sub a b"
    and "rfind s sub a b + int (length sub) \<le> adjust_index (int (length s)) b"
  using rfind_scan_found[of s sub "if a < 0 then max (a + int (length s)) 0 else a"
      "nat (adjust_index (int (length s)) b - int (length sub)
            - (if a < 0 then max (a + int (length s)) 0 else a) + 1)"] assms
  by (auto simp: rfind_def Let_def occurs_at_def split: if_splits)

lemma find_boundary_range:
  "find_boundary s seps ss e = e \<or>
   (0 \<le> find_boundary s seps ss e \<and>
    find_boundary s seps ss e \<le> adjust_index (int (length s)) e)"
proof (induction seps)
  case Nil
  then show ?case by simp
next
  case (Cons sep seps)
  show ?case
  proof (cases "rfind s sep ss e = -1")
    case True
    then show ?thesis using Cons by simp
  next
    case False
    then show ?thesis using rfind_found[OF False] by (simp add: Let_def)
  qed
qed

lemma chunk_end_range:
  "chunk_end s cs start = start + cs \<or>
   (0 \<le> chunk_end s cs start \<and>
    chunk_end s cs start \<le> adjust_index (int (length s)) (start + cs))"
  using find_boundary_range[of s separators "start + cs - boundary_window cs" "start + cs"]
  by (auto simp: chunk_end_def Let_def)

text \<open>
  A window never holds more than \<open>chunk_size\<close> characters, wherever it starts: the
  boundary search only moves the cut to the left, and a start that went negative is
  counted from the right end by the slice as by the search.
\<close>

lemma chunk_slice_length:
  assumes "0 \<le> cs"
  shows "int (length (slice s start (chunk_end s cs start))) \<le> cs"
proof -
  let ?n = "int (length s)"
  consider (nominal) "chunk_end s cs start = start + cs"
    | (moved) "0 \<le> chunk_end s cs start"
        "chunk_end s cs start \<le> adjust_index ?n (start + cs)"
    using chunk_end_range by blast
  then show ?thesis
  proof cases
    case nominal
    then show ?thesis
      using adjust_index_step[OF assms, of "length s" start] assms by (simp add: slice_length)
  next
    case moved
    have "adjust_index ?n (chunk_end s cs start) \<le> chunk_end s cs start"
      using moved(1) by (simp add: adjust_index_def)
    then show ?thesis
      using adjust_index_step[OF assms, of "length s" start] assms moved(2)
      by (simp add: slice_length)
  qed
qed

lemma chunk_loop_bound:
  "0 \<le> cs \<Longrightarrow> chunk_loop fuel s cs ov start acc = Some chunks \<Longrightarrow>
   \<forall>c \<in> set acc. int (length c) \<le> cs \<Longrightarrow> \<forall>c \<in> set chunks. int (length c) \<le> cs"
proof (induction fuel arbitrary: start acc)
  case 0
  then show ?case by (simp split: if_splits)
next
  case (Suc fuel)
  show ?case
  proof (cases "start < int (length s)")
    case False
    then show ?thesis using Suc.prems by simp
  next
    case True
    let ?e = "chunk_end s cs start"
    have step: "chunk_loop fuel s cs ov (?e - ov) (acc @ [strip (slice s start ?e)]) = Some chunks"
      using Suc.prems(2) True by (simp add: Let_def)
    have "int (length (strip (slice s start ?e))) \<le> cs"
      using chunk_slice_length[OF Suc.prems(1), of s start] strip_length[of "slice s start ?e"]
      by linarith
    then have "\<forall>c \<in> set (acc @ [strip (slice s start ?e)]). int (length c) \<le> cs"
      using Suc.prems(3) by simp
    then show ?thesis using Suc.IH[OF Suc.prems(1) step] by blast
  qed
qed

lemma boundary_window_le: "0 \<le> cs \<Longrightarrow> 0 \<le> boundary_window cs \<and> boundary_window cs \<le> cs"
  unfolding boundary_window_def by presburger

text \<open>
  Claim C8. Whatever the text and the overlap, and for every maximum size that is a size
  (not negative), no chunk that \<open>chunk_text\<close> returns is longer than the maximum size
  plus the boundary-search window, a fifth of the maximum size. (The chunks are in fact
  never longer than the maximum size itself.)
\<close>

theorem chunk_text_length_bound:
  assumes "0 \<le> chunk_size"
    and "chunk_text fuel s chunk_size chunk_overlap = Some chunks"
    and "c \<in> set chunks"
  shows "int (length c) \<le> chunk_size + boundary_window chunk_size"
proof -
  have "int (length c) \<le> chunk_size"
  proof (cases "int (length s) \<le> chunk_size")
    case True
    then show ?thesis using assms(2,3) by (auto simp: chunk_text_def)
  next
    case False
    then have "chunk_loop fuel s chunk_size chunk_overlap 0 [] = Some chunks"
      using assms(2) by (simp add: chunk_text_def)
    then show ?thesis using chunk_loop_bound[OF assms(1), of fuel s chunk_overlap 0 "[]" chunks] assms(3)
      by simp
  qed
  then show ?thesis using boundary_window_le[OF assms(1)] by linarith
qed

theorem chunk_text_length_bound_witness:
  "(0::int) \<le> 20 \<and>
   chunk_text 3 ''aaaaaaaaaaaaaaaa. bbbbbbbbbbbb'' 20 5
     = Some [''aaaaaaaaaaaaaaaa.'', ''aaa. bbbbbbbbbbbb'', ''bb''] \<and>
   ''aaa. bbbbbbbbbbbb'' \<in> set [''aaaaaaaaaaaaaaaa.'', ''aaa. bbbbbbbbbbbb'', ''bb''] \<and>
   int (length ''aaa. bbbbbbbbbbbb'') \<le> 20 + boundary_window 20"
proof -
  have run: "chunk_text 3 ''aaaaaaaaaaaaaaaa. bbbbbbbbbbbb'' 20 5
      = Some [''aaaaaaaaaaaaaaaa.'', ''aaa. bbbbbbbbbbbb'', ''bb'']"
    by code_simp
  have "int (length ''aaa. bbbbbbbbbbbb'') \<le> 20 + boundary_window 20"
    using chunk_text_length_bound[OF _ run, of "''aaa. bbbbbbbbbbbb''"] by simp
  then show ?thesis using run by simp
qed

lemma stalled_loop:
  "chunk_loop fuel ''aaaaaaaaaaaaaaaa. bbbbbbbbbbbb'' 20 18 0 acc = None"
proof (induction fuel arbitrary: acc)
  case 0
  then show ?case by simp
next
  case (Suc fuel)
  have "chunk_end ''aaaaaaaaaaaaaaaa. bbbbbbbbbbbb'' 20 0 = 18"
    by code_simp
  then show ?case using Suc by (simp add: Let_def)
qed

text \<open>
  Claim C1. The claim says that with \<open>overlap < maxSize\<close> every chunk starts strictly
  after the one before, so that the loop ends. The code sets \<open>start = end - chunk_overlap\<close>
  with no guard. On the 30-character text below, with \<open>chunk_size = 20\<close> and
  \<open>chunk_overlap = 18\<close>, the boundary search moves the first cut from 20 to 18, the next
  start is \<open>18 - 18 = 0\<close> again, and the loop never ends: however many iterations are
  allowed, \<open>chunk_text\<close> has not returned.
\<close>

theorem chunk_text_stalls:
  "chunk_end ''aaaaaaaaaaaaaaaa. bbbbbbbbbbbb'' 20 0 - 18 = 0 \<and>
   chunk_text fuel ''aaaaaaaaaaaaaaaa. bbbbbbbbbbbb'' 20 18 = None"
proof -
  have "chunk_end ''aaaaaaaaaaaaaaaa. bbbbbbbbbbbb'' 20 0 = 18"
    by code_simp
  then show ?thesis by (simp add: chunk_text_def stalled_loop)
qed

text \<open>
  Claim C6. The claim says that a text no longer than the maximum size comes back as one
  chunk, trimmed. The early return of \<open>chunk_text\<close> gives the text as it is, while the loop
  trims every chunk it emits: the text \<open>" a "\<close> comes back with its spaces.
\<close>

theorem chunk_text_short_untrimmed:
  "chunk_text fuel '' a '' 1000 200 = Some ['' a ''] \<and> strip '' a '' = ''a''"
  by (simp add: chunk_text_def strip_def is_space_def)

text \<open>
  Claim C7, as stated: the cut goes just after the delimiter closest to the nominal end.
  It does not: with \<open>". "\<close> at 16 and \<open>"! "\<close> at 18 in the window from 16 to 20, the closest
  delimiter ends at 20, and the code cuts at 18, after the period.
\<close>

theorem chunk_end_not_closest:
  "chunk_end ''aaaaaaaaaaaaaaaa. ! bbbbbbbbbbbb'' 20 0 = 18 \<and>
   closest_delimiter_cut ''aaaaaaaaaaaaaaaa. ! bbbbbbbbbbbb'' 20 0 = 20"
  by code_simp

lemma rfind_scan_filter:
  "rfind_scan s sub lo k =
     (case filter (occurs_at s sub) (rev [lo..lo + int k - 1]) of [] \<Rightarrow> -1 | i # _ \<Rightarrow> i)"
proof (induction k)
  case 0
  then show ?case by simp
next
  case (Suc k)
  have "[lo..lo + int (Suc k) - 1] = [lo..lo + int k - 1] @ [lo + int k]"
    using upto_rec2[of lo "lo + int k"] by simp
  then show ?case using Suc by simp
qed

lemma rfind_last_occurrence:
  assumes "0 \<le> lo" "0 \<le> e" "e \<le> int (length s)"
  shows "rfind s sub lo e = (case last_occurrence s sub lo e of None \<Rightarrow> -1 | Some i \<Rightarrow> i)"
proof -
  have "rfind s sub lo e = rfind_scan s sub lo (nat (e - int (length sub) - lo + 1))"
    using assms by (simp add: rfind_def adjust_index_def Let_def)
  also have "\<dots> = (case filter (occurs_at s sub) (rev [lo..e - int (length sub)]) of
                      [] \<Rightarrow> -1 | i # _ \<Rightarrow> i)"
  proof (cases "lo \<le> e - int (length sub)")
    case True
    then show ?thesis by (simp add: rfind_scan_filter)
  next
    case False
    then show ?thesis by simp
  qed
  finally show ?thesis by (simp add: last_occurrence_def split: list.splits)
qed

lemma last_occurrence_nonneg: "last_occurrence s sub lo e = Some i \<Longrightarrow> 0 \<le> i"
  unfolding last_occurrence_def
  by (auto split: list.splits simp: filter_eq_Cons_iff occurs_at_def)

lemma find_boundary_find:
  assumes "0 \<le> lo" "0 \<le> e" "e \<le> int (length s)"
  shows "find_boundary s seps lo e =
     (case List.find (\<lambda>sep. last_occurrence s sep lo e \<noteq> None) seps of
        None \<Rightarrow> e
      | Some sep \<Rightarrow> the (last_occurrence s sep lo e) + int (length sep))"
proof (induction seps)
  case Nil
  then show ?case by simp
next
  case (Cons sep seps)
  show ?case
  proof (cases "last_occurrence s sep lo e")
    case None
    then show ?thesis using Cons rfind_last_occurrence[OF assms, of sep] by simp
  next
    case (Some i)
    then show ?thesis
      using rfind_last_occurrence[OF assms, of sep] last_occurrence_nonneg[OF Some]
      by (simp add: Let_def)
  qed
qed

text \<open>
  Claim C7, amended. For a window that starts at \<open>start \<ge> 0\<close>: when its nominal end
  \<open>start + chunk_size\<close> lies before the end of the text, the separators \<open>". "\<close>, \<open>".\n"\<close>,
  \<open>"! "\<close>, \<open>"? "\<close>, \<open>"\n\n"\<close> are tried in this order; the first one that occurs wholly
  within the last fifth of the window decides, and the cut goes just after its
  occurrence closest to the nominal end. When none occurs there, or the nominal end is
  not before the end of the text, the cut is at \<open>start + chunk_size\<close>.
\<close>

theorem chunk_end_priority:
  assumes "0 \<le> start" and "0 \<le> chunk_size"
  shows "chunk_end s chunk_size start = priority_cut s chunk_size start"
proof (cases "start + chunk_size < int (length s)")
  case True
  have lo: "0 \<le> start + chunk_size - boundary_window chunk_size"
    using assms boundary_window_le[of chunk_size] by linarith
  have e: "0 \<le> start + chunk_size" "start + chunk_size \<le> int (length s)"
    using assms True by simp_all
  show ?thesis
    using True find_boundary_find[OF lo e, of separators]
    by (simp add: chunk_end_def priority_cut_def Let_def)
next
  case False
  then show ?thesis by (simp add: chunk_end_def priority_cut_def Let_def)
qed

theorem chunk_end_priority_witness:
  "(0::int) \<le> 0 \<and> (0::int) \<le> 20 \<and>
   chunk_end ''aaaaaaaaaaaaaaaa. ! bbbbbbbbbbbb'' 20 0 = 18 \<and>
   priority_cut ''aaaaaaaaaaaaaaaa. ! bbbbbbbbbbbb'' 20 0 = 18"
proof -
  have "chunk_end ''aaaaaaaaaaaaaaaa. ! bbbbbbbbbbbb'' 20 0 = 18"
    by code_simp
  then show ?thesis
    using chunk_end_priority[of 0 20 "''aaaaaaaaaaaaaaaa. ! bbbbbbbbbbbb''"] by simp
qed

section \<open>Properties of the embedding generator\<close>

lemma retrying_numeral:
  "retrying wait attempt_repr attempt (numeral n) f w
     = retrying wait attempt_repr attempt (Suc (pred_numeral n)) f w"
  by (simp add: numeral_eq_Suc)

lemma batch_path_one_attempt:
  "generate_embeddings_batch flaky_provider [''a''] ''text-embedding-3-small'' 100 fresh_world
     = (Inl (Exn ''503 Service Unavailable''), fresh_world\<lparr>provider_state := 1\<rparr>)"
proof -
  have "range_from_0 (int (length [''a''])) 100 = Inr [0]"
    by (simp add: range_from_0_def)
  then show ?thesis
    by (simp add: generate_embeddings_batch_def call_provider_def flaky_provider_def
        fresh_world_def)
qed

lemma single_path_second_attempt:
  "generate_embedding flaky_provider attempt_repr ''a'' ''text-embedding-3-small'' fresh_world
     = (Inr [1/2], fresh_world\<lparr>provider_state := 2, slept := [2]\<rparr>)"
  by (simp add: generate_embedding_def retry_3_attempts_def generate_embedding_body_def
      call_provider_def flaky_provider_def fresh_world_def wait_exponential_def retrying_numeral)

text \<open>
  Claim C3. The claim says that both paths retry a failure of the provider, up to three
  attempts, before an error reaches the caller. Only \<open>generate_embedding\<close> carries the
  retry decorator. With a provider whose first call fails and whose second would
  succeed, the single-text path waits 2 and succeeds on its second attempt, while the
  batch path gives the caller the error after its one and only attempt, with no wait.
\<close>

theorem batch_path_does_not_retry:
  "generate_embeddings_batch flaky_provider [''a''] ''text-embedding-3-small'' 100 fresh_world
     = (Inl (Exn ''503 Service Unavailable''), fresh_world\<lparr>provider_state := 1\<rparr>) \<and>
   generate_embedding flaky_provider attempt_repr ''a'' ''text-embedding-3-small'' fresh_world
     = (Inr [1/2], fresh_world\<lparr>provider_state := 2, slept := [2]\<rparr>)"
  using batch_path_one_attempt single_path_second_attempt by (rule conjI)

lemma slice_take_drop:
  "0 \<le> a \<Longrightarrow> a \<le> b \<Longrightarrow> slice xs a b = take (nat (b - a)) (drop (nat a) xs)"
  by (auto simp: slice_def adjust_index_def Let_def min_def)

lemma take_group:
  "take (j * b) xs @ take b (drop (j * b) xs) = take (Suc j * b) xs"
proof -
  have "take (j * b + b) xs = take (j * b) xs @ take b (drop (j * b) xs)"
    by (rule take_add)
  moreover have "Suc j * b = j * b + b" by simp
  ultimately show ?thesis by presburger
qed

lemma embed_groups_step:
  assumes "create (provider_state w) (Texts (map (take 30000) (slice texts i (i + bs)))) model
             = (Inr data, p')"
  shows "embed_groups create texts model bs (i # rest) embeddings w
           = embed_groups create texts model bs rest (embeddings @ data)
               (w\<lparr>provider_state := p'\<rparr>)"
  using assms by (simp add: call_provider_def Let_def)

text \<open>
  The loop invariant: before the group numbered \<open>j\<close>, the embeddings collected are those
  of the first \<open>j * batch_size\<close> texts, in order.
\<close>

lemma embed_groups_in_order:
  assumes bs: "0 < bs"
    and prov: "\<And>p b. fst (create p (Texts b) model) = Inr (map f b)"
  shows "embeddings = map (\<lambda>t. f (take 30000 t)) (take (j * nat bs) texts) \<Longrightarrow>
         fst (embed_groups create texts model bs (map (\<lambda>k. int k * bs) [j..<m]) embeddings w)
           = Inr (map (\<lambda>t. f (take 30000 t)) (take (max j m * nat bs) texts))"
proof (induction "m - j" arbitrary: j embeddings w)
  case 0
  then have "[j..<m] = []" and "max j m = j" by simp_all
  then show ?case using "0.prems" by simp
next
  case (Suc d)
  then have jm: "j < m" by simp
  let ?g = "\<lambda>t. f (take 30000 t)"
  let ?nb = "nat bs"
  let ?batch = "slice texts (int j * bs) (int j * bs + bs)"
  have sl: "?batch = take ?nb (drop (j * ?nb) texts)"
    using bs by (simp add: slice_take_drop nat_mult_distrib)
  obtain r p' where
    call: "create (provider_state w) (Texts (map (take 30000) ?batch)) model = (r, p')"
    by (cases "create (provider_state w) (Texts (map (take 30000) ?batch)) model")
  have r: "r = Inr (map f (map (take 30000) ?batch))"
    using prov[of "provider_state w" "map (take 30000) ?batch"] call by simp
  have "map ?g (take (Suc j * ?nb) texts)
          = map ?g (take (j * ?nb) texts @ take ?nb (drop (j * ?nb) texts))"
    by (simp only: take_group)
  also have "\<dots> = embeddings @ map f (map (take 30000) ?batch)"
    unfolding sl Suc.prems by (simp add: comp_def)
  finally have acc:
    "embeddings @ map f (map (take 30000) ?batch) = map ?g (take (Suc j * ?nb) texts)"
    by (rule sym)
  have d: "d = m - Suc j" using Suc.hyps(2) by simp
  have IH: "fst (embed_groups create texts model bs (map (\<lambda>k. int k * bs) [Suc j..<m])
           (map ?g (take (Suc j * ?nb) texts)) (w\<lparr>provider_state := p'\<rparr>))
        = Inr (map ?g (take (max (Suc j) m * ?nb) texts))"
    by (rule Suc.hyps(1)[OF d refl])
  have mx: "max (Suc j) m = max j m" using jm by simp
  have starts:
    "map (\<lambda>k. int k * bs) [j..<m] = int j * bs # map (\<lambda>k. int k * bs) [Suc j..<m]"
    using upt_conv_Cons[OF jm] by simp
  have "embed_groups create texts model bs (map (\<lambda>k. int k * bs) [j..<m]) embeddings w
          = embed_groups create texts model bs (map (\<lambda>k. int k * bs) [Suc j..<m])
              (embeddings @ map f (map (take 30000) ?batch)) (w\<lparr>provider_state := p'\<rparr>)"
    unfolding starts using call[unfolded r] by (rule embed_groups_step)
  then show ?case using IH unfolding acc mx by simp
qed

lemma groups_cover:
  assumes "0 < bs"
  shows "n \<le> nat ((int n + bs - 1) div bs) * nat bs"
proof -
  have "int n + bs - 1 < ((int n + bs - 1) div bs + 1) * bs"
    using assms by (metis add.commute distrib_left mult.commute mult.right_neutral
        pos_mod_bound mult_div_mod_eq add_less_cancel_left)
  then have *: "int n \<le> ((int n + bs - 1) div bs) * bs"
    by (simp add: algebra_simps)
  have "0 \<le> (int n + bs - 1) div bs"
    using assms by (simp add: pos_imp_zdiv_nonneg_iff)
  then have "int (nat ((int n + bs - 1) div bs) * nat bs) = ((int n + bs - 1) div bs) * bs"
    using assms by simp
  then show ?thesis using * by linarith
qed

text \<open>
  Claim C9. For every list of texts and every batch size (a positive number of texts per
  call), with a provider that answers each group with one embedding per text in the
  group's order (\<open>f\<close> of the text it was sent), \<open>generate_embeddings_batch\<close> returns one
  embedding per text, the one at index \<open>i\<close> being that of \<open>texts[i]\<close> (truncated to 30000
  characters): cutting into groups and concatenating the answers keeps the order.
\<close>

theorem generate_embeddings_batch_in_order:
  assumes "0 < batch_size"
    and "\<And>p b. fst (create p (Texts b) model) = Inr (map f b)"
  shows "fst (generate_embeddings_batch create texts model batch_size w)
           = Inr (map (\<lambda>t. f (take 30000 t)) texts)"
proof -
  let ?m = "nat ((int (length texts) + batch_size - 1) div batch_size)"
  have run: "fst (embed_groups create texts model batch_size
                (map (\<lambda>k. int k * batch_size) [0..<?m]) [] w)
          = Inr (map (\<lambda>t. f (take 30000 t)) (take (max 0 ?m * nat batch_size) texts))"
    using embed_groups_in_order[where create = create and f = f and model = model
        and bs = batch_size and j = 0 and m = ?m and texts = texts and w = w
        and embeddings = "[]", OF assms(1) assms(2)]
    by simp
  have cover: "length texts \<le> ?m * nat batch_size"
    by (rule groups_cover[OF assms(1)])
  have "max 0 ?m = ?m" by simp
  then have "take (max 0 ?m * nat batch_size) texts = texts"
    using cover by simp
  then have "fst (embed_groups create texts model batch_size
                (map (\<lambda>k. int k * batch_size) [0..<?m]) [] w)
          = Inr (map (\<lambda>t. f (take 30000 t)) texts)"
    using run by simp
  moreover have "range_from_0 (int (length texts)) batch_size
          = Inr (map (\<lambda>k. int k * batch_size) [0..<?m])"
    using assms(1) by (simp add: range_from_0_def)
  ultimately show ?thesis
    by (simp add: generate_embeddings_batch_def)
qed

theorem generate_embeddings_batch_in_order_witness:
  "(0::int) < 2 \<and>
   fst (generate_embeddings_batch length_provider [''a'', ''bb'', ''ccc'', ''dddd'', ''eeeee'']
          ''m'' 2 fresh_world)
     = Inr [[1], [2], [3], [4], [5]]"
proof -
  have prov: "\<And>p b. fst (length_provider p (Texts b) ''m'')
                 = Inr (map (\<lambda>t. [real (length t)]) b)"
    by (simp add: length_provider_def)
  have "fst (generate_embeddings_batch length_provider [''a'', ''bb'', ''ccc'', ''dddd'', ''eeeee'']
               ''m'' 2 fresh_world)
     = Inr (map (\<lambda>t. [real (length (take 30000 t))]) [''a'', ''bb'', ''ccc'', ''dddd'', ''eeeee''])"
    using generate_embeddings_batch_in_order[where f = "\<lambda>t. [real (length t)]"
        and create = length_provider and model = "''m''" and batch_size = 2
        and texts = "[''a'', ''bb'', ''ccc'', ''dddd'', ''eeeee'']" and w = fresh_world, OF _ prov]
    by simp
  then show ?thesis by simp
qed

section \<open>Properties of the database operations\<close>





lemma fold_update_fields:
  "fold (apply_set t) (update_fields st pr rd em) row =
     row\<lparr>status := st,
         progress := (case pr of None \<Rightarrow> progress row | Some v \<Rightarrow> Some v),
         result_data := (case rd of None \<Rightarrow> result_data row | Some v \<Rightarrow> Some v),
         error_message := (case em of None \<Rightarrow> error_message row | Some v \<Rightarrow> Some v),
         started_at := (if st = ''running'' then Some t else started_at row),
         completed_at := (if st = ''success'' \<or> st = ''failed'' then Some t
                          else completed_at row)\<rparr>"
  by (cases pr; cases rd; cases em) (simp_all add: update_fields_def)

text \<open>
  Claim C10. A call of \<open>update_job_status\<close> leaves the world as it was but for the rows
  of \<open>job_status\<close> with the given task id, and in such a row it sets \<open>status\<close>, each of
  \<open>progress\<close>, \<open>result_data\<close> and \<open>error_message\<close> that was passed (an argument that is
  \<open>None\<close> leaves its column as it was), \<open>started_at\<close> exactly when the status is
  \<open>running\<close> and \<open>completed_at\<close> exactly when it is \<open>success\<close> or \<open>failed\<close>. No other
  column (\<open>celery_task_id\<close>, \<open>task_name\<close>, \<open>input_data\<close>) is written.
\<close>

theorem update_job_status_frame:
  "update_job_status task_id st pr rd em w =
     w\<lparr>job_status :=
         map (\<lambda>row. if celery_task_id row = task_id
                     then row\<lparr>status := st,
                              progress := (case pr of None \<Rightarrow> progress row | Some v \<Rightarrow> Some v),
                              result_data := (case rd of None \<Rightarrow> result_data row | Some v \<Rightarrow> Some v),
                              error_message := (case em of None \<Rightarrow> error_message row | Some v \<Rightarrow> Some v),
                              started_at := (if st = ''running'' then Some (now w)
                                             else started_at row),
                              completed_at := (if st = ''success'' \<or> st = ''failed''
                                               then Some (now w) else completed_at row)\<rparr>
                     else row)
           (job_status w)\<rparr> \<and>
   map celery_task_id (job_status (update_job_status task_id st pr rd em w))
     = map celery_task_id (job_status w) \<and>
   map task_name (job_status (update_job_status task_id st pr rd em w))
     = map task_name (job_status w) \<and>
   map input_data (job_status (update_job_status task_id st pr rd em w))
     = map input_data (job_status w) \<and>
   knowledge_base (update_job_status task_id st pr rd em w) = knowledge_base w"
  by (simp add: update_job_status_def sql_update_job_status_def fold_update_fields)

section \<open>Properties of the tasks\<close>

lemma retrying_tables:
  assumes "\<And>w r w'. f w = (r, w') \<Longrightarrow>
             knowledge_base w' = knowledge_base w \<and> job_status w' = job_status w \<and> now w' = now w"
  shows "retrying wait attempt_repr attempt remaining f w = (r, w') \<Longrightarrow>
           knowledge_base w' = knowledge_base w \<and> job_status w' = job_status w \<and> now w' = now w"
proof (induction remaining arbitrary: attempt w)
  case 0
  then show ?case using assms[of w] by (auto split: prod.splits sum.splits)
next
  case (Suc remaining)
  obtain r1 w1 where first: "f w = (r1, w1)" by (cases "f w")
  show ?case
  proof (cases r1)
    case (Inr v)
    then show ?thesis using Suc.prems first assms[OF first] by simp
  next
    case (Inl e)
    then have "retrying wait attempt_repr (Suc attempt) remaining f
                 (w1\<lparr>slept := slept w1 @ [wait attempt]\<rparr>) = (r, w')"
      using Suc.prems first by simp
    from Suc.IH[OF this] show ?thesis using assms[OF first] by simp
  qed
qed

lemma generate_embedding_body_tables:
  "generate_embedding_body create txt model w = (r, w') \<Longrightarrow>
     knowledge_base w' = knowledge_base w \<and> job_status w' = job_status w \<and> now w' = now w"
  by (auto simp: generate_embedding_body_def call_provider_def Let_def
      split: prod.splits sum.splits list.splits)

lemma generate_embedding_tables:
  "generate_embedding create attempt_repr txt model w = (r, w') \<Longrightarrow>
     knowledge_base w' = knowledge_base w \<and> job_status w' = job_status w \<and> now w' = now w"
  unfolding generate_embedding_def retry_3_attempts_def
  by (rule retrying_tables[OF generate_embedding_body_tables])

lemma insert_document_effect:
  assumes "insert_document insert_error u ty fname content emb meta w = (r, w')"
  shows "job_status w' = job_status w \<and> now w' = now w \<and>
         (case r of
            Inl e \<Rightarrow> knowledge_base w' = knowledge_base w
          | Inr new_id \<Rightarrow>
              new_id = length (knowledge_base w) \<and>
              knowledge_base w' = knowledge_base w @
                [\<lparr>doc_id = new_id, source_url = u, source_type = ty, filename = fname,
                  content_markdown = content, embedding = emb,
                  metadata = (case meta of None \<Rightarrow> Map.empty | Some m \<Rightarrow> m),
                  char_count = length content\<rparr>])"
  using assms by (auto simp: insert_document_def Let_def split: option.splits)

lemma update_job_status_tables:
  "knowledge_base (update_job_status task_id st pr rd em w) = knowledge_base w \<and>
   now (update_job_status task_id st pr rd em w) = now w"
  by (simp add: update_job_status_def sql_update_job_status_def)

lemma find_map_key:
  "(\<And>x. P (f x) = P x) \<Longrightarrow> List.find P (map f xs) = map_option f (List.find P xs)"
  by (induction xs) simp_all

lemma find_append_missing:
  "List.find P xs = None \<Longrightarrow> List.find P (xs @ ys) = List.find P ys"
  by (induction xs) (simp_all split: if_splits)

lemma job_of_update:
  assumes "job_of task_id w = Some j"
  shows "\<exists>j'. job_of task_id (update_job_status task_id st pr rd em w) = Some j' \<and>
              status j' = st \<and>
              (em \<noteq> None \<longrightarrow> error_message j' = em)"
proof -
  let ?upd = "\<lambda>row. if celery_task_id row = task_id
                     then fold (apply_set (now w)) (update_fields st pr rd em) row else row"
  have id: "\<And>row. celery_task_id (?upd row) = celery_task_id row"
    by (cases pr; cases rd; cases em) (simp_all add: update_fields_def)
  have "job_of task_id (update_job_status task_id st pr rd em w)
          = map_option ?upd (List.find (\<lambda>row. celery_task_id row = task_id) (job_status w))"
    unfolding job_of_def update_job_status_def sql_update_job_status_def
    using find_map_key[of "\<lambda>row. celery_task_id row = task_id" ?upd "job_status w"] id
    by simp
  then have found: "job_of task_id (update_job_status task_id st pr rd em w) = Some (?upd j)"
    using assms by (simp add: job_of_def)
  have "celery_task_id j = task_id"
    using assms by (auto simp: job_of_def find_Some_iff)
  then have "status (?upd j) = st \<and> (em \<noteq> None \<longrightarrow> error_message (?upd j) = em)"
    by (cases pr; cases rd; cases em) (simp_all add: update_fields_def)
  then show ?thesis using found by blast
qed

lemma job_of_track_job: "\<exists>j. job_of task_id (track_job task_id u w) = Some j"
proof (cases "List.find (\<lambda>row. celery_task_id row = task_id) (job_status w)")
  case None
  then show ?thesis by (simp add: track_job_def job_of_def find_append_missing)
next
  case (Some j)
  have "job_of task_id (track_job task_id u w)
          = map_option (\<lambda>row. if celery_task_id row = task_id
                               then row\<lparr>status := ''running'', started_at := Some (now w)\<rparr> else row)
              (List.find (\<lambda>row. celery_task_id row = task_id) (job_status w))"
    using Some by (simp add: track_job_def job_of_def find_map_key)
  then show ?thesis using Some by simp
qed

lemma track_job_knowledge_base: "knowledge_base (track_job task_id u w) = knowledge_base w"
  by (simp add: track_job_def split: option.splits)

lemma call_update_job_status_effect:
  assumes "call_update_job_status update_error task_id st pr rd em w = (r, w')"
  shows "knowledge_base w' = knowledge_base w \<and>
         (case r of
            Inl e \<Rightarrow> w' = w \<and> update_error task_id st = Some e
          | Inr _ \<Rightarrow> w' = update_job_status task_id st pr rd em w)"
  using assms
  by (auto simp: call_update_job_status_def update_job_status_tables split: option.splits)

lemma ingest_try_effect:
  assumes "ingest_try env task_id u meta w = (r, w')"
  shows "case r of
           Inl e \<Rightarrow>
             job_status w' = job_status w \<and>
             (knowledge_base w' = knowledge_base w \<or>
              (env_update_error env task_id ''success'' = Some e \<and>
               (\<exists>row. knowledge_base w' = knowledge_base w @ [row] \<and> source_url row = u)))
         | Inr result \<Rightarrow>
             (\<exists>row. knowledge_base w' = knowledge_base w @ [row] \<and>
                    doc_id row = document_id result \<and> source_url row = u)"
proof (cases "env_parse_document env u")
  case (Inl e)
  then show ?thesis using assms by (auto simp: ingest_try_def)
next
  case (Inr doc)
  let ?txt = "if length (markdown doc) > 8000 then take 8000 (markdown doc) else markdown doc"
  obtain r1 w1 where emb:
    "generate_embedding (env_embeddings_create env) (env_attempt_repr env) ?txt
       ''text-embedding-3-small'' w = (r1, w1)"
    by (cases "generate_embedding (env_embeddings_create env) (env_attempt_repr env) ?txt
                 ''text-embedding-3-small'' w")
  note t1 = generate_embedding_tables[OF emb]
  show ?thesis
  proof (cases r1)
    case (Inl e)
    then show ?thesis using assms Inr emb t1 by (auto simp: ingest_try_def Let_def)
  next
    case r1: (Inr vec)
    let ?meta = "Some (parsed_metadata doc ++ (case meta of None \<Rightarrow> Map.empty | Some m \<Rightarrow> m))"
    obtain r2 w2 where ins:
      "insert_document (env_insert_error env) u (parsed_source_type doc) (parsed_filename doc)
         (markdown doc) vec ?meta w1 = (r2, w2)"
      by (cases "insert_document (env_insert_error env) u (parsed_source_type doc)
                   (parsed_filename doc) (markdown doc) vec ?meta w1")
    note t2 = insert_document_effect[OF ins]
    show ?thesis
    proof (cases r2)
      case (Inl e)
      then show ?thesis
        using assms Inr emb r1 ins t1 t2 by (auto simp: ingest_try_def Let_def)
    next
      case r2: (Inr new_id)
      let ?result = "\<lparr>document_id = new_id, result_filename = parsed_filename doc,
                       result_source_type = parsed_source_type doc,
                       result_char_count = length (markdown doc),
                       result_status = ''success''\<rparr>"
      obtain r3 w3 where upd:
        "call_update_job_status (env_update_error env) task_id ''success'' (Some 100)
           (Some ?result) None w2 = (r3, w3)"
        by (cases "call_update_job_status (env_update_error env) task_id ''success'' (Some 100)
                     (Some ?result) None w2")
      note t3 = call_update_job_status_effect[OF upd]
      have stored: "\<exists>row. knowledge_base w3 = knowledge_base w @ [row] \<and>
                         doc_id row = new_id \<and> source_url row = u"
        using t1 t2 t3 r2 by auto
      show ?thesis
      proof (cases r3)
        case (Inl e)
        then have "r = Inl e" "w' = w3"
          using assms Inr emb r1 ins r2 upd by (simp_all add: ingest_try_def Let_def)
        moreover have "job_status w3 = job_status w"
          using t1 t2 t3 Inl by simp
        ultimately show ?thesis using stored t3 Inl by auto
      next
        case (Inr x)
        then have "r = Inr ?result" "w' = w3"
          using assms \<open>env_parse_document env u = Inr doc\<close> emb r1 ins r2 upd
          by (simp_all add: ingest_try_def Let_def)
        then show ?thesis using stored by simp
      qed
    qed
  qed
qed

lemmas run_defs = ingest_document_def call_track_job_def ingest_try_def track_job_def
  example_env_def length_provider_def failing_provider_def fresh_world_def
  generate_embedding_def retry_3_attempts_def generate_embedding_body_def call_provider_def
  retrying_numeral Let_def insert_document_def call_update_job_status_def
  update_job_status_def sql_update_job_status_def update_fields_def

lemmas failing_env_defs =
  success_write_fails_env_def database_down_env_def insert_fails_env_def

text \<open>
  Claim C2, as stated: a run that fails leaves no Document and sets the job to failed.
  The update that records success runs inside the \<open>try\<close> block after the insert has been
  committed; when it raises, the run fails and the Document stays (first run below: one
  row where there was none). And when the database fails the insert and the handler's
  update as well, the job is never set to failed (second run: its status is still
  \<open>running\<close>).
\<close>

theorem failed_run_keeps_document:
  "fst (ingest_document success_write_fails_env ''task-1'' ''doc.pdf'' None fresh_world)
     = Inl (Exn ''connection lost'') \<and>
   map doc_id (knowledge_base (snd (ingest_document success_write_fails_env ''task-1''
                                      ''doc.pdf'' None fresh_world))) = [0] \<and>
   knowledge_base fresh_world = [] \<and>
   fst (ingest_document database_down_env ''task-2'' ''doc.pdf'' None fresh_world)
     = Inl (Exn ''connection lost'') \<and>
   map status (job_status (snd (ingest_document database_down_env ''task-2'' ''doc.pdf''
                                  None fresh_world))) = [''running'']"
  by (simp add: run_defs failing_env_defs)

lemma ex_success_run:
  "fst (ingest_document (example_env length_provider) ''task-1'' ''doc.pdf'' None fresh_world)
     = Inr \<lparr>document_id = 0, result_filename = ''doc.pdf'', result_source_type = ''pdf'',
            result_char_count = 7, result_status = ''success''\<rparr>"
  by (simp add: run_defs failing_env_defs)

lemma ex_embedding_fails_run:
  "fst (ingest_document (example_env failing_provider) ''task-1'' ''doc.pdf'' None fresh_world)
     = Inl (RetryError (Exn ''503 Service Unavailable'')
              ''<Future at 0x7f3a2c1d state=finished raised Exception>'')"
  by (simp add: run_defs failing_env_defs)

lemma ex_insert_fails_run:
  "fst (ingest_document insert_fails_env ''task-1'' ''doc.pdf'' None fresh_world)
     = Inl (Exn ''disk full'')"
  by (simp add: run_defs failing_env_defs)

text \<open>
  Claim C2, amended. A run of \<open>ingest_document\<close> that returns has added exactly one row
  to \<open>knowledge_base\<close>, the one whose id it returns. A run that raises has added no row,
  unless the step that raised is the update recording success: that one comes after the
  insert has been committed, and the one inserted row stays. When the statement that
  opens the job and the handler's update succeed, the job row of a run that raises has
  the status \<open>failed\<close> and the message \<open>str(e)\<close> of the exception raised.
\<close>

theorem ingest_document_all_or_nothing:
  assumes "ingest_document env task_id u meta w = (r, w')"
  shows "case r of
           Inr result \<Rightarrow>
             (\<exists>row. knowledge_base w' = knowledge_base w @ [row] \<and>
                    doc_id row = document_id result \<and> source_url row = u)
         | Inl e \<Rightarrow>
             (knowledge_base w' = knowledge_base w \<or>
              (env_update_error env task_id ''success'' \<noteq> None \<and>
               (\<exists>row. knowledge_base w' = knowledge_base w @ [row] \<and> source_url row = u))) \<and>
             (env_track_error env task_id = None \<and>
              env_update_error env task_id ''failed'' = None \<longrightarrow>
                (\<exists>j. job_of task_id w' = Some j \<and> status j = ''failed'' \<and>
                     error_message j = Some (exc_str e)))"
proof (cases "env_track_error env task_id")
  case (Some e0)
  then have "r = Inl e0" "w' = w"
    using assms by (simp_all add: ingest_document_def call_track_job_def)
  then show ?thesis using Some by simp
next
  case None
  let ?w0 = "track_job task_id u w"
  have tracked: "call_track_job (env_track_error env) task_id u w = (Inr (), ?w0)"
    using None by (simp add: call_track_job_def)
  obtain r1 w1 where body: "ingest_try env task_id u meta ?w0 = (r1, w1)"
    by (cases "ingest_try env task_id u meta ?w0")
  note eff = ingest_try_effect[OF body]
  show ?thesis
  proof (cases r1)
    case (Inr result)
    then have "r = Inr result" "w' = w1"
      using assms tracked body by (simp_all add: ingest_document_def)
    then show ?thesis using eff Inr by (simp add: track_job_knowledge_base)
  next
    case (Inl e)
    obtain r2 w2 where upd:
      "call_update_job_status (env_update_error env) task_id ''failed'' None None
         (Some (exc_str e)) w1 = (r2, w2)"
      by (cases "call_update_job_status (env_update_error env) task_id ''failed'' None None
                   (Some (exc_str e)) w1")
    note t = call_update_job_status_effect[OF upd]
    have kb: "knowledge_base w2 = knowledge_base w \<or>
              (env_update_error env task_id ''success'' \<noteq> None \<and>
               (\<exists>row. knowledge_base w2 = knowledge_base w @ [row] \<and> source_url row = u))"
      using eff Inl t by (auto simp: track_job_knowledge_base)
    show ?thesis
    proof (cases r2)
      case r2: (Inl e')
      then have "r = Inl e'" "w' = w2"
        using assms tracked body Inl upd by (simp_all add: ingest_document_def)
      moreover have "env_update_error env task_id ''failed'' \<noteq> None"
        using t r2 by simp
      ultimately show ?thesis using kb by auto
    next
      case r2: (Inr x)
      then have r: "r = Inl e" and w': "w' = w2"
        using assms tracked body Inl upd by (simp_all add: ingest_document_def)
      have w2: "w2 = update_job_status task_id ''failed'' None None (Some (exc_str e)) w1"
        using t r2 by simp
      obtain j where "job_of task_id ?w0 = Some j"
        using job_of_track_job by blast
      then have "job_of task_id w1 = Some j"
        using eff Inl by (simp add: job_of_def)
      from job_of_update[OF this, of "''failed''" None None "Some (exc_str e)"]
      have "\<exists>j. job_of task_id w2 = Some j \<and> status j = ''failed'' \<and>
                 error_message j = Some (exc_str e)"
        unfolding w2 by simp
      then show ?thesis using r w' kb by simp
    qed
  qed
qed

theorem ingest_document_all_or_nothing_witness:
  "fst (ingest_document (example_env length_provider) ''task-1'' ''doc.pdf'' None fresh_world)
     = Inr \<lparr>document_id = 0, result_filename = ''doc.pdf'', result_source_type = ''pdf'',
            result_char_count = 7, result_status = ''success''\<rparr> \<and>
   (\<exists>row. knowledge_base (snd (ingest_document (example_env length_provider) ''task-1''
                                  ''doc.pdf'' None fresh_world)) = [row] \<and>
          doc_id row = 0 \<and> source_url row = ''doc.pdf'') \<and>
   fst (ingest_document (example_env failing_provider) ''task-1'' ''doc.pdf'' None fresh_world)
     = Inl (RetryError (Exn ''503 Service Unavailable'')
              ''<Future at 0x7f3a2c1d state=finished raised Exception>'') \<and>
   knowledge_base (snd (ingest_document (example_env failing_provider) ''task-1'' ''doc.pdf''
                          None fresh_world)) = [] \<and>
   (\<exists>j. job_of ''task-1'' (snd (ingest_document (example_env failing_provider) ''task-1''
                                  ''doc.pdf'' None fresh_world)) = Some j \<and>
        status j = ''failed'' \<and>
        error_message j
          = Some ''RetryError[<Future at 0x7f3a2c1d state=finished raised Exception>]'') \<and>
   fst (ingest_document insert_fails_env ''task-1'' ''doc.pdf'' None fresh_world)
     = Inl (Exn ''disk full'') \<and>
   knowledge_base (snd (ingest_document insert_fails_env ''task-1'' ''doc.pdf'' None
                          fresh_world)) = [] \<and>
   (\<exists>j. job_of ''task-1'' (snd (ingest_document insert_fails_env ''task-1'' ''doc.pdf'' None
                                  fresh_world)) = Some j \<and>
        status j = ''failed'' \<and> error_message j = Some ''disk full'')"
proof -
  let ?ok = "ingest_document (example_env length_provider) ''task-1'' ''doc.pdf'' None fresh_world"
  let ?emb = "ingest_document (example_env failing_provider) ''task-1'' ''doc.pdf'' None fresh_world"
  let ?ins = "ingest_document insert_fails_env ''task-1'' ''doc.pdf'' None fresh_world"
  have empty: "knowledge_base fresh_world = []" by (simp add: fresh_world_def)
  have no_errors:
    "\<And>create. env_track_error (example_env create) ''task-1'' = None"
    "\<And>create st. env_update_error (example_env create) ''task-1'' st = None"
    "env_track_error insert_fails_env ''task-1'' = None"
    "\<And>st. env_update_error insert_fails_env ''task-1'' st = None"
    by (simp_all add: example_env_def insert_fails_env_def)
  have "?ok = (fst ?ok, snd ?ok)" by simp
  note ok = ingest_document_all_or_nothing[OF this]
  have "?emb = (fst ?emb, snd ?emb)" by simp
  note emb = ingest_document_all_or_nothing[OF this]
  have "?ins = (fst ?ins, snd ?ins)" by simp
  note ins = ingest_document_all_or_nothing[OF this]
  have a: "\<exists>row. knowledge_base (snd ?ok) = [row] \<and> doc_id row = 0 \<and> source_url row = ''doc.pdf''"
    using ok by (simp add: ex_success_run empty)
  have b: "knowledge_base (snd ?emb) = [] \<and>
           (\<exists>j. job_of ''task-1'' (snd ?emb) = Some j \<and> status j = ''failed'' \<and>
                error_message j
                  = Some ''RetryError[<Future at 0x7f3a2c1d state=finished raised Exception>]'')"
    using emb by (simp add: ex_embedding_fails_run empty no_errors)
  have c: "knowledge_base (snd ?ins) = [] \<and>
           (\<exists>j. job_of ''task-1'' (snd ?ins) = Some j \<and> status j = ''failed'' \<and>
                error_message j = Some ''disk full'')"
    using ins by (simp add: ex_insert_fails_run empty no_errors)
  show ?thesis using a b c ex_success_run ex_embedding_fails_run ex_insert_fails_run by blast
qed







end
